theory Spec2Isabelle
  imports Complex_Main "HOL-Library.Char_ord" "HOL-Library.List_Lexorder"
    "HOL-Library.Product_Lexorder"
begin

section \<open>Text cleaner\<close>

text \<open>
  Python strings are sequences of code points. A \<^typ>\<open>char\<close> stands for a code point
  in the range 0..255, read through \<^term>\<open>of_char\<close>; on that range the character
  classes below are those of \<^verbatim>\<open>str.isspace\<close>, \<^verbatim>\<open>str.lower\<close> and the
  regular expression class \<^verbatim>\<open>\s\<close> of a \<^verbatim>\<open>str\<close> pattern.
\<close>

definition is_space :: "char \<Rightarrow> bool" where
  "is_space c =
     (let n = (of_char c :: nat)
      in (9 \<le> n \<and> n \<le> 13) \<or> (28 \<le> n \<and> n \<le> 32) \<or> n = 133 \<or> n = 160)"

definition lower_char :: "char \<Rightarrow> char" where
  "lower_char c =
     (let n = (of_char c :: nat)
      in if (65 \<le> n \<and> n \<le> 90) \<or> (192 \<le> n \<and> n \<le> 222 \<and> n \<noteq> 215)
         then char_of (n + 32) else c)"

definition lower :: "string \<Rightarrow> string" where
  "lower s = map lower_char s"

text \<open>\<^verbatim>\<open>x.strip()\<close>: whitespace is removed from both ends.\<close>

definition strip :: "string \<Rightarrow> string" where
  "strip s = rev (dropWhile is_space (rev (dropWhile is_space s)))"

text \<open>The character set \<^verbatim>\<open>[\[\]\"]\<close> of the first regular expression.\<close>

definition is_bracket :: "char \<Rightarrow> bool" where
  "is_bracket c = (c = CHR ''['' \<or> c = CHR '']'' \<or> c = CHR 0x22)"

text \<open>
  \<^verbatim>\<open>re.sub(r'^[\[\]\"]+|[\[\]\"]+$', '', x)\<close>: the run of bracket characters at the
  start is deleted, and so is the run that reaches the end of the string. Python's
  \<^verbatim>\<open>$\<close> also matches in front of a line feed that is the last character, so there
  the run in front of that line feed is the one deleted.
\<close>

definition sub_brackets :: "string \<Rightarrow> string" where
  "sub_brackets s =
     (let t = dropWhile is_bracket s
      in if t \<noteq> [] \<and> last t = CHR 0x0A
         then rev (dropWhile is_bracket (rev (butlast t))) @ [CHR 0x0A]
         else rev (dropWhile is_bracket (rev t)))"

text \<open>\<^verbatim>\<open>x.replace("+", "")\<close>.\<close>

definition remove_plus :: "string \<Rightarrow> string" where
  "remove_plus s = filter (\<lambda>c. c \<noteq> CHR ''+'') s"

text \<open>\<^verbatim>\<open>re.sub(r'\s+', ' ', x)\<close>: every maximal run of whitespace becomes one space.\<close>

function collapse_ws :: "string \<Rightarrow> string" where
  "collapse_ws [] = []"
| "collapse_ws (c # cs) =
     (if is_space c then CHR '' '' # collapse_ws (dropWhile is_space cs)
      else c # collapse_ws cs)"
  by pat_completeness auto
termination
  by (relation "measure length") (auto simp: length_dropWhile_le less_Suc_eq_le)

text \<open>Lines 75 to 78 of \<^verbatim>\<open>clean_text\<close>, on the string \<^verbatim>\<open>str(x)\<close>.\<close>

definition clean_str :: "string \<Rightarrow> string" where
  "clean_str s = collapse_ws (strip (remove_plus (sub_brackets (strip (lower s)))))"

text \<open>
  The argument of \<^verbatim>\<open>clean_text\<close> is any cell value: a missing value (NaN, None),
  a string, or another scalar (a number, a boolean). Python's \<^verbatim>\<open>str\<close> on the
  scalars is the parameter \<open>repr\<close>.
\<close>

datatype 'a pyval = Missing | Text string | Scalar 'a

fun isna :: "'a pyval \<Rightarrow> bool" where
  "isna Missing = True"
| "isna (Text s) = False"
| "isna (Scalar v) = False"

fun str :: "('a \<Rightarrow> string) \<Rightarrow> 'a pyval \<Rightarrow> string" where
  "str repr Missing = ''nan''"
| "str repr (Text s) = s"
| "str repr (Scalar v) = repr v"

definition clean_text :: "('a \<Rightarrow> string) \<Rightarrow> 'a pyval \<Rightarrow> string" where
  "clean_text repr x = (if isna x then [] else clean_str (str repr x))"

text \<open>A bracket character at one end; no whitespace at either end.\<close>

definition bracket_edged :: "string \<Rightarrow> bool" where
  "bracket_edged r = (r \<noteq> [] \<and> (is_bracket (hd r) \<or> is_bracket (last r)))"

definition trimmed :: "string \<Rightarrow> bool" where
  "trimmed t = (t = [] \<or> (\<not> is_space (hd t) \<and> \<not> is_space (last t)))"

section \<open>Tables\<close>

text \<open>
  A row of the report after the renaming of lines 52 to 61, with the canonical column
  names. A text column holds a string or a missing value (NaN, \<open>None\<close> here); the
  model covers reports whose text columns are read as strings. The three metric columns
  have type \<open>'m\<close>: a number or a missing value before the coercion of line 65, a
  number after it. Numbers are exact reals: sums and quotients are those of exact
  arithmetic, without the rounding of 64-bit floats.
\<close>

record 'm row =
  search_term :: "string option"
  keyword :: "string option"
  campaign :: "string option"
  ad_group :: "string option"
  match_type :: "string option"
  impressions :: 'm
  clicks :: 'm
  cost :: 'm
  account :: string

section \<open>Loader\<close>

text \<open>
  One data row of a report file (after the two skipped lines and the header), before
  \<^verbatim>\<open>pd.read_csv\<close> converts its fields: the text of the five text fields, and for
  each metric field the number it reads as, or \<open>None\<close> when the field is empty or is
  text that \<^verbatim>\<open>pd.to_numeric(errors="coerce")\<close> turns into NaN.
\<close>

record csv_row =
  csv_search_term :: string
  csv_keyword :: string
  csv_campaign :: string
  csv_ad_group :: string
  csv_match_type :: string
  csv_impressions :: "real option"
  csv_clicks :: "real option"
  csv_cost :: "real option"

text \<open>
  What \<^verbatim>\<open>pd.read_csv(file, skiprows=2)\<close> does with an uploaded file: it raises an
  exception with some message, or it returns the data rows.
\<close>

datatype parsed = Unparseable string | Table "csv_row list"

record upload =
  file_name :: string
  file_content :: parsed

text \<open>
  The field texts that \<^verbatim>\<open>pd.read_csv\<close> reads as a missing value by default; the
  empty field is the first of them.
\<close>

definition na_values :: "string list" where
  "na_values =
     [[], ''#N/A'', ''#N/A N/A'', ''#NA'', ''-1.#IND'', ''-1.#QNAN'', ''-NaN'', ''-nan'',
      ''1.#IND'', ''1.#QNAN'', ''<NA>'', ''N/A'', ''NA'', ''NULL'', ''NaN'', ''None'',
      ''n/a'', ''nan'', ''null'']"

definition read_cell :: "string \<Rightarrow> string option" where
  "read_cell t = (if t \<in> set na_values then None else Some t)"

text \<open>Line 44 adds the column \<^verbatim>\<open>account\<close>, the name of the file, to every row.\<close>

definition read_row :: "string \<Rightarrow> csv_row \<Rightarrow> real option row" where
  "read_row nm c =
     \<lparr>search_term = read_cell (csv_search_term c),
      keyword = read_cell (csv_keyword c),
      campaign = read_cell (csv_campaign c),
      ad_group = read_cell (csv_ad_group c),
      match_type = read_cell (csv_match_type c),
      impressions = csv_impressions c,
      clicks = csv_clicks c,
      cost = csv_cost c,
      account = nm\<rparr>"

text \<open>The body of the \<^verbatim>\<open>try\<close> of lines 43 and 44: \<open>Inl\<close> is the exception.\<close>

definition read_csv :: "upload \<Rightarrow> string + real option row list" where
  "read_csv f =
     (case file_content f of
        Unparseable e \<Rightarrow> Inl e
      | Table cs \<Rightarrow> Inr (map (read_row (file_name f)) cs))"

text \<open>
  The loop of lines 41 to 47. Its state is the list \<^verbatim>\<open>all_dfs\<close> and the messages
  shown with \<^verbatim>\<open>st.error\<close>, both in the order of the files. Lines 33 to 35 stop
  the page when nothing is uploaded, so the loop runs on a list that is not empty; the
  model takes any list.
\<close>

fun load_loop ::
  "upload list \<Rightarrow> real option row list list \<times> string list \<Rightarrow>
   real option row list list \<times> string list" where
  "load_loop [] (all_dfs, errors) = (all_dfs, errors)"
| "load_loop (f # fs) (all_dfs, errors) =
     (case read_csv f of
        Inr df \<Rightarrow> load_loop fs (all_dfs @ [df], errors)
      | Inl e \<Rightarrow> load_loop fs (all_dfs, errors @ [''Error reading '' @ file_name f @ '': '' @ e]))"

text \<open>
  Line 49: \<^verbatim>\<open>pd.concat\<close> of an empty list raises (a \<^verbatim>\<open>ValueError\<close>, nothing catches
  it); this is the failure that the specification calls \<open>EmptyInputError\<close>. Otherwise
  the tables are appended in the order of the files.
\<close>

datatype error = EmptyInputError

definition load :: "upload list \<Rightarrow> string list \<times> (error + real option row list)" where
  "load uploaded_files =
     (case load_loop uploaded_files ([], []) of
        (all_dfs, errors) \<Rightarrow>
          (errors, if all_dfs = [] then Inl EmptyInputError else Inr (concat all_dfs)))"

section \<open>Normalizer\<close>

text \<open>Line 65: \<^verbatim>\<open>pd.to_numeric(df[col], errors="coerce").fillna(0)\<close>, on one cell.\<close>

definition to_numeric :: "real option \<Rightarrow> real" where
  "to_numeric v = (case v of None \<Rightarrow> 0 | Some q \<Rightarrow> q)"

definition coerce_row :: "real option row \<Rightarrow> real row" where
  "coerce_row r =
     \<lparr>search_term = search_term r,
      keyword = keyword r,
      campaign = campaign r,
      ad_group = ad_group r,
      match_type = match_type r,
      impressions = to_numeric (impressions r),
      clicks = to_numeric (clicks r),
      cost = to_numeric (cost r),
      account = account r\<rparr>"

text \<open>
  Lines 64 to 67; \<^verbatim>\<open>dropna(subset=["search_term"])\<close> keeps the rows whose search
  term is not missing.
\<close>

definition normalize :: "real option row list \<Rightarrow> real row list" where
  "normalize df = filter (\<lambda>r. search_term r \<noteq> None) (map coerce_row df)"

section \<open>Filters\<close>

text \<open>
  Lines 86 to 93. The selected campaign is one of the values of the column, so it can be
  the missing value, which compares unequal to everything, itself included.
\<close>

definition filter_scope :: "string \<Rightarrow> string option \<Rightarrow> real row list \<Rightarrow> real row list" where
  "filter_scope account_sel campaign_sel df =
     (let filtered_df = (if account_sel = ''All'' then df
                         else filter (\<lambda>r. account r = account_sel) df)
      in if campaign_sel \<noteq> Some ''All''
         then filter (\<lambda>r. campaign_sel \<noteq> None \<and> campaign r = campaign_sel) filtered_df
         else filtered_df)"

section \<open>Keyword summary\<close>

text \<open>
  The quotient of two float columns. A zero denominator does not raise: the quotient is
  an infinity, or NaN when the numerator is zero as well.
\<close>

datatype fval = Finite real | PosInf | NegInf | NaN

definition fdiv :: "real \<Rightarrow> real \<Rightarrow> fval" where
  "fdiv a b =
     (if b \<noteq> 0 then Finite (a / b)
      else if 0 < a then PosInf
      else if a < 0 then NegInf
      else NaN)"

text \<open>\<^verbatim>\<open>.fillna(0)\<close> and \<^verbatim>\<open>.replace([float("inf")], 0)\<close>, on one value.\<close>

fun fillna0 :: "fval \<Rightarrow> fval" where
  "fillna0 NaN = Finite 0"
| "fillna0 v = v"

fun replace_inf0 :: "fval \<Rightarrow> fval" where
  "replace_inf0 PosInf = Finite 0"
| "replace_inf0 v = v"

text \<open>
  A row of the aggregation of lines 100 to 110, and a row of the summary once lines 111
  and 112 have added the two ratios.
\<close>

record agg_row =
  group_keyword :: string
  total_search_terms :: nat
  total_impressions :: real
  total_clicks :: real
  total_cost :: real

record summary_row = agg_row +
  CTR :: fval
  CPC :: fval

text \<open>
  \<^verbatim>\<open>groupby("keyword")\<close> makes one group for each value of the column other than the
  missing value, in the sorted order of the values; rows whose keyword is missing are
  in no group.
\<close>

definition group_keys :: "('r \<Rightarrow> string option) \<Rightarrow> 'r list \<Rightarrow> string list" where
  "group_keys col df = sort (remdups (List.map_filter col df))"

definition group_rows :: "('r \<Rightarrow> string option) \<Rightarrow> 'r list \<Rightarrow> string \<Rightarrow> 'r list" where
  "group_rows col df k = filter (\<lambda>r. col r = Some k) df"

text \<open>\<^verbatim>\<open>nunique\<close>: the number of distinct values that are not missing.\<close>

definition nunique :: "string option list \<Rightarrow> nat" where
  "nunique vs = length (remdups (List.map_filter id vs))"

text \<open>
  Lines 100 to 112. The rows are sorted by the number of distinct search terms, largest
  first; the order among groups with the same number is that of a stable sort here.
\<close>

definition keyword_agg :: "real row list \<Rightarrow> string \<Rightarrow> agg_row" where
  "keyword_agg df k =
     (let g = group_rows keyword df k
      in \<lparr>group_keyword = k,
          total_search_terms = nunique (map search_term g),
          total_impressions = sum_list (map impressions g),
          total_clicks = sum_list (map clicks g),
          total_cost = sum_list (map cost g)\<rparr>)"

definition add_ratios :: "agg_row \<Rightarrow> summary_row" where
  "add_ratios g =
     \<lparr>group_keyword = group_keyword g,
      total_search_terms = total_search_terms g,
      total_impressions = total_impressions g,
      total_clicks = total_clicks g,
      total_cost = total_cost g,
      CTR = fillna0 (fdiv (total_clicks g) (total_impressions g)),
      CPC = replace_inf0 (fdiv (total_cost g) (total_clicks g))\<rparr>"

definition summary :: "real row list \<Rightarrow> summary_row list" where
  "summary filtered_df =
     map add_ratios
       (sort_key (\<lambda>g. - int (total_search_terms g))
          (map (keyword_agg filtered_df) (group_keys keyword filtered_df)))"

section \<open>Gap detector\<close>

text \<open>\<^verbatim>\<open>clean_text\<close> applied to a cell of a text column (lines 143 and 144).\<close>

definition clean_cell :: "string option \<Rightarrow> string" where
  "clean_cell c =
     clean_text (\<lambda>u :: unit. []) (case c of None \<Rightarrow> Missing | Some s \<Rightarrow> Text s)"

text \<open>
  Lines 146 to 150. The two added columns are recomputed from the row where they are
  read.
\<close>

definition all_keywords :: "real row list \<Rightarrow> string set" where
  "all_keywords filtered_df = set (map (\<lambda>r. clean_cell (keyword r)) filtered_df) - {[]}"

definition all_search_terms :: "real row list \<Rightarrow> string set" where
  "all_search_terms filtered_df = set (map (\<lambda>r. clean_cell (search_term r)) filtered_df)"

definition uncovered_terms :: "real row list \<Rightarrow> string set" where
  "uncovered_terms filtered_df = all_search_terms filtered_df - all_keywords filtered_df"

definition uncovered_df :: "real row list \<Rightarrow> real row list" where
  "uncovered_df filtered_df =
     filter (\<lambda>r. clean_cell (search_term r) \<in> uncovered_terms filtered_df) filtered_df"

text \<open>Lines 155 to 164: the uncovered rows grouped by search term.\<close>

record uncovered_row =
  u_search_term :: string
  u_total_impressions :: real
  u_total_clicks :: real
  u_total_cost :: real

definition term_agg :: "real row list \<Rightarrow> string \<Rightarrow> uncovered_row" where
  "term_agg df k =
     (let g = group_rows search_term df k
      in \<lparr>u_search_term = k,
          u_total_impressions = sum_list (map impressions g),
          u_total_clicks = sum_list (map clicks g),
          u_total_cost = sum_list (map cost g)\<rparr>)"

definition uncovered_summary :: "real row list \<Rightarrow> uncovered_row list" where
  "uncovered_summary udf =
     sort_key (\<lambda>u. (- u_total_clicks u, - u_total_impressions u))
       (map (term_agg udf) (group_keys search_term udf))"

text \<open>
  Lines 172 to 178: the full detailed list shows eight columns of the uncovered rows,
  sorted by clicks, largest first.
\<close>

record detail_row =
  d_search_term :: "string option"
  d_match_type :: "string option"
  d_campaign :: "string option"
  d_ad_group :: "string option"
  d_impressions :: real
  d_clicks :: real
  d_cost :: real
  d_keyword :: "string option"

definition detail :: "real row \<Rightarrow> detail_row" where
  "detail r =
     \<lparr>d_search_term = search_term r,
      d_match_type = match_type r,
      d_campaign = campaign r,
      d_ad_group = ad_group r,
      d_impressions = impressions r,
      d_clicks = clicks r,
      d_cost = cost r,
      d_keyword = keyword r\<rparr>"

definition detailed_list :: "real row list \<Rightarrow> detail_row list" where
  "detailed_list udf = sort_key (\<lambda>d. - d_clicks d) (map detail udf)"

text \<open>
  Lines 152 to 178: the message that everything is covered when no row is uncovered, the
  two tables otherwise.
\<close>

datatype gap_result = FullyCovered | Uncovered "uncovered_row list" "detail_row list"

definition gap_detector :: "real row list \<Rightarrow> gap_result" where
  "gap_detector filtered_df =
     (let udf = uncovered_df filtered_df
      in if udf = [] then FullyCovered
         else Uncovered (uncovered_summary udf) (detailed_list udf))"


section \<open>Properties of the text cleaner\<close>

lemma of_char_lower_char:
  "(of_char (lower_char c) :: nat) =
     (let n = of_char c
      in if (65 \<le> n \<and> n \<le> 90) \<or> (192 \<le> n \<and> n \<le> 222 \<and> n \<noteq> 215) then n + 32 else n)"
  by (simp add: lower_char_def Let_def)

lemma lower_char_idem: "lower_char (lower_char c) = lower_char c"
  using of_char_lower_char [of c] by (subst lower_char_def) (auto simp: Let_def)

lemma lower_char_space: "lower_char (CHR '' '') = CHR '' ''"
  by (simp add: lower_char_def)

lemma is_space_space: "is_space (CHR '' '')"
  by (simp add: is_space_def)

lemma is_space_newline: "is_space (CHR 0x0A)"
  by (simp add: is_space_def)

lemma plus_not_space: "\<not> is_space (CHR ''+'')"
  by (simp add: is_space_def)

lemma space_not_plus: "CHR '' '' \<noteq> CHR ''+''"
  by simp

subsection \<open>Stripping whitespace\<close>

lemma dropWhile_hd_id:
  "xs \<noteq> [] \<Longrightarrow> \<not> P (hd xs) \<Longrightarrow> dropWhile P xs = xs"
  by (cases xs) auto

lemma rev_dropWhile_rev_id:
  "xs = [] \<or> \<not> P (last xs) \<Longrightarrow> rev (dropWhile P (rev xs)) = xs"
  by (cases xs rule: rev_cases) auto

lemma last_dropWhile_eq: "dropWhile P xs \<noteq> [] \<Longrightarrow> last (dropWhile P xs) = last xs"
  by (induction xs) (auto split: if_splits)

lemma trimmed_strip_id:
  assumes "trimmed t"
  shows "strip t = t"
proof (cases "t = []")
  case True
  then show ?thesis by (simp add: strip_def)
next
  case False
  with assms have h: "\<not> is_space (hd t)" and l: "\<not> is_space (last t)"
    by (simp_all add: trimmed_def)
  have "dropWhile is_space t = t"
    using False h by (rule dropWhile_hd_id)
  moreover have "rev (dropWhile is_space (rev t)) = t"
    using l by (simp add: rev_dropWhile_rev_id)
  ultimately show ?thesis by (simp add: strip_def)
qed

lemma hd_rev_dropWhile_rev:
  "rev (dropWhile P (rev xs)) \<noteq> [] \<Longrightarrow> hd (rev (dropWhile P (rev xs))) = hd xs"
proof (induction xs rule: rev_induct)
  case Nil
  then show ?case by simp
next
  case (snoc x xs)
  then show ?case by (cases xs) (auto split: if_splits)
qed

lemma last_rev_dropWhile_rev:
  "rev (dropWhile P (rev xs)) \<noteq> [] \<Longrightarrow> \<not> P (last (rev (dropWhile P (rev xs))))"
  using hd_dropWhile [of P "rev xs"] by (simp add: last_rev)

lemma trimmed_strip: "trimmed (strip s)"
proof (cases "strip s = []")
  case True
  then show ?thesis by (simp add: trimmed_def)
next
  case False
  let ?d = "dropWhile is_space s"
  from False have ne: "rev (dropWhile is_space (rev ?d)) \<noteq> []"
    by (simp add: strip_def)
  have dne: "?d \<noteq> []"
  proof
    assume e: "?d = []"
    show False using ne unfolding e by simp
  qed
  have "hd (strip s) = hd ?d"
    using hd_rev_dropWhile_rev [OF ne] by (simp add: strip_def)
  moreover have "\<not> is_space (hd ?d)"
    using dne hd_dropWhile by blast
  moreover have "\<not> is_space (last (strip s))"
    using last_rev_dropWhile_rev [OF ne] by (simp add: strip_def)
  ultimately show ?thesis by (simp add: trimmed_def)
qed

lemma set_strip: "set (strip s) \<subseteq> set s"
proof -
  have "set (strip s) \<subseteq> set (dropWhile is_space s)"
    unfolding strip_def using set_dropWhileD [of _ is_space "rev (dropWhile is_space s)"] by auto
  also have "\<dots> \<subseteq> set s" using set_dropWhileD by fastforce
  finally show ?thesis .
qed

lemma length_strip: "length (strip s) \<le> length s"
proof -
  have "length (strip s) \<le> length (dropWhile is_space s)"
    unfolding strip_def using length_dropWhile_le [of is_space "rev (dropWhile is_space s)"] by simp
  also have "\<dots> \<le> length s" by (rule length_dropWhile_le)
  finally show ?thesis .
qed

subsection \<open>Stripping brackets\<close>

lemma set_sub_brackets: "set (sub_brackets s) \<subseteq> set s"
proof -
  let ?t = "dropWhile is_bracket s"
  have t: "set ?t \<subseteq> set s" using set_dropWhileD by fastforce
  have a: "set (rev (dropWhile is_bracket (rev ?t))) \<subseteq> set ?t"
    using set_dropWhileD [of _ is_bracket "rev ?t"] by auto
  have b: "set (rev (dropWhile is_bracket (rev (butlast ?t)))) \<subseteq> set ?t"
    using set_dropWhileD [of _ is_bracket "rev (butlast ?t)"] in_set_butlastD [of _ ?t] by auto
  have c: "?t \<noteq> [] \<Longrightarrow> last ?t \<in> set ?t" by simp
  show ?thesis
    unfolding sub_brackets_def Let_def using t a b c by (auto simp del: dropWhile_eq_Nil_conv last_in_set)
qed

lemma length_sub_brackets: "length (sub_brackets s) \<le> length s"
proof -
  let ?t = "dropWhile is_bracket s"
  have t: "length ?t \<le> length s" by (rule length_dropWhile_le)
  have a: "length (rev (dropWhile is_bracket (rev ?t))) \<le> length ?t"
    using length_dropWhile_le [of is_bracket "rev ?t"] by simp
  have b: "?t \<noteq> [] \<Longrightarrow> length (rev (dropWhile is_bracket (rev (butlast ?t))) @ [CHR 0x0A]) \<le> length ?t"
    using length_dropWhile_le [of is_bracket "rev (butlast ?t)"] by (cases ?t rule: rev_cases) auto
  show ?thesis
    unfolding sub_brackets_def Let_def using t a b by (auto simp del: dropWhile_eq_Nil_conv)
qed

lemma sub_brackets_trimmed:
  assumes "trimmed r"
  shows "sub_brackets r = rev (dropWhile is_bracket (rev (dropWhile is_bracket r)))"
proof -
  let ?t = "dropWhile is_bracket r"
  have n: "\<not> (?t \<noteq> [] \<and> last ?t = CHR 0x0A)"
  proof
    assume h: "?t \<noteq> [] \<and> last ?t = CHR 0x0A"
    then have "r \<noteq> []" by auto
    moreover have "last ?t = last r" using h last_dropWhile_eq [of is_bracket r] by blast
    ultimately show False using assms h is_space_newline by (auto simp: trimmed_def)
  qed
  show ?thesis unfolding sub_brackets_def Let_def by (rule if_not_P) (rule n)
qed

subsection \<open>Collapsing whitespace\<close>

lemma length_collapse_ws: "length (collapse_ws s) \<le> length s"
proof (induction s rule: collapse_ws.induct)
  case 1
  then show ?case by simp
next
  case (2 c cs)
  show ?case
  proof (cases "is_space c")
    case True
    with 2 have "length (collapse_ws (dropWhile is_space cs)) \<le> length (dropWhile is_space cs)"
      by simp
    also have "\<dots> \<le> length cs" by (rule length_dropWhile_le)
    finally show ?thesis using True by simp
  next
    case False
    with 2 show ?thesis by simp
  qed
qed

lemma set_collapse_ws: "set (collapse_ws s) \<subseteq> insert (CHR '' '') (set s)"
proof (induction s rule: collapse_ws.induct)
  case 1
  then show ?case by simp
next
  case (2 c cs)
  show ?case
  proof (cases "is_space c")
    case True
    have "set (dropWhile is_space cs) \<subseteq> set cs" using set_dropWhileD by fastforce
    with 2 True show ?thesis by auto
  next
    case False
    with 2 show ?thesis by auto
  qed
qed

lemma collapse_ws_Nil_iff: "collapse_ws s = [] \<longleftrightarrow> s = []"
  by (cases s) auto

lemma hd_collapse_ws: "s \<noteq> [] \<Longrightarrow> \<not> is_space (hd s) \<Longrightarrow> hd (collapse_ws s) = hd s"
  by (cases s) auto

lemma last_collapse_ws:
  "s \<noteq> [] \<Longrightarrow> is_space (last (collapse_ws s)) = is_space (last s)"
proof (induction s rule: collapse_ws.induct)
  case 1
  then show ?case by simp
next
  case (2 c cs)
  show ?case
  proof (cases "is_space c")
    case True
    show ?thesis
    proof (cases "dropWhile is_space cs = []")
      case e: True
      have c: "collapse_ws (c # cs) = [CHR '' '']"
        by (simp only: collapse_ws.simps True if_True e)
      from e have "\<forall>x\<in>set cs. is_space x" by simp
      then have "is_space (last (c # cs))" using True by (cases cs rule: rev_cases) auto
      then show ?thesis unfolding c using is_space_space by simp
    next
      case ne: False
      then have "cs \<noteq> []" by auto
      have "is_space (last (collapse_ws (dropWhile is_space cs))) = is_space (last (dropWhile is_space cs))"
        using 2 True ne by blast
      also have "last (dropWhile is_space cs) = last cs"
        using ne by (rule last_dropWhile_eq)
      finally show ?thesis using True ne \<open>cs \<noteq> []\<close>
        by (simp add: collapse_ws_Nil_iff del: dropWhile_eq_Nil_conv)
    qed
  next
    case False
    with 2 show ?thesis by (cases "cs = []") (auto simp: collapse_ws_Nil_iff)
  qed
qed

lemma trimmed_collapse_ws: "trimmed t \<Longrightarrow> trimmed (collapse_ws t)"
  unfolding trimmed_def
  using hd_collapse_ws [of t] last_collapse_ws [of t] by (auto simp: collapse_ws_Nil_iff)

lemma dropWhile_collapse_ws:
  "t = [] \<or> \<not> is_space (hd t) \<Longrightarrow> dropWhile is_space (collapse_ws t) = collapse_ws t"
  by (cases t) auto

lemma collapse_ws_idem: "collapse_ws (collapse_ws s) = collapse_ws s"
proof (induction s rule: collapse_ws.induct)
  case 1
  then show ?case by simp
next
  case (2 c cs)
  show ?case
  proof (cases "is_space c")
    case True
    let ?d = "dropWhile is_space cs"
    have "?d = [] \<or> \<not> is_space (hd ?d)" using hd_dropWhile [of is_space cs] by blast
    then have "dropWhile is_space (collapse_ws ?d) = collapse_ws ?d"
      by (rule dropWhile_collapse_ws)
    moreover have "collapse_ws (collapse_ws ?d) = collapse_ws ?d" using 2 True by simp
    ultimately show ?thesis using True is_space_space by simp
  next
    case False
    with 2 show ?thesis by simp
  qed
qed

subsection \<open>The cleaned string\<close>

lemma trimmed_clean_str: "trimmed (clean_str s)"
  unfolding clean_str_def by (rule trimmed_collapse_ws) (rule trimmed_strip)

lemma set_remove_plus: "set (remove_plus s) = set s - {CHR ''+''}"
  by (auto simp: remove_plus_def)

lemma length_remove_plus: "length (remove_plus s) \<le> length s"
  by (simp add: remove_plus_def)

lemma remove_plus_id: "CHR ''+'' \<notin> set s \<Longrightarrow> remove_plus s = s"
  unfolding remove_plus_def by (induction s) auto

lemma lower_id: "\<forall>c\<in>set s. lower_char c = c \<Longrightarrow> lower s = s"
  unfolding lower_def by (induction s) auto

lemma set_clean_str: "set (clean_str s) \<subseteq> insert (CHR '' '') (set (lower s) - {CHR ''+''})"
proof -
  let ?w = "sub_brackets (strip (lower s))"
  have "set ?w \<subseteq> set (lower s)"
    using set_sub_brackets [of "strip (lower s)"] set_strip [of "lower s"] by blast
  then have "set (strip (remove_plus ?w)) \<subseteq> set (lower s) - {CHR ''+''}"
    using set_strip [of "remove_plus ?w"] by (auto simp: set_remove_plus)
  then show ?thesis
    unfolding clean_str_def using set_collapse_ws [of "strip (remove_plus ?w)"] by blast
qed

lemma clean_str_lowered: "c \<in> set (clean_str s) \<Longrightarrow> lower_char c = c"
  using set_clean_str [of s] by (auto simp: lower_def lower_char_idem lower_char_space)

lemma clean_str_no_plus: "CHR ''+'' \<notin> set (clean_str s)"
  using set_clean_str [of s] by auto

lemma collapse_ws_clean_str: "collapse_ws (clean_str s) = clean_str s"
  by (simp add: clean_str_def collapse_ws_idem)

lemma length_clean_str_aux:
  "length (collapse_ws (strip (remove_plus w))) \<le> length w"
proof -
  have "length (collapse_ws (strip (remove_plus w))) \<le> length (strip (remove_plus w))"
    by (rule length_collapse_ws)
  also have "\<dots> \<le> length (remove_plus w)" by (rule length_strip)
  also have "\<dots> \<le> length w" by (rule length_remove_plus)
  finally show ?thesis .
qed

lemma clean_str_again:
  "clean_str (clean_str s) = collapse_ws (strip (remove_plus (sub_brackets (clean_str s))))"
proof -
  have "lower (clean_str s) = clean_str s"
    by (rule lower_id) (simp add: clean_str_lowered)
  moreover have "strip (clean_str s) = clean_str s"
    by (rule trimmed_strip_id) (rule trimmed_clean_str)
  ultimately show ?thesis by (subst clean_str_def) simp
qed

lemma sub_brackets_id:
  assumes "trimmed r" and "\<not> bracket_edged r"
  shows "sub_brackets r = r"
proof (cases "r = []")
  case True
  then show ?thesis by (simp add: sub_brackets_def)
next
  case False
  with assms(2) have h: "\<not> is_bracket (hd r)" and l: "\<not> is_bracket (last r)"
    by (simp_all add: bracket_edged_def)
  have "dropWhile is_bracket r = r"
    using False h by (rule dropWhile_hd_id)
  moreover have "rev (dropWhile is_bracket (rev r)) = r"
    using l by (simp add: rev_dropWhile_rev_id)
  ultimately show ?thesis using sub_brackets_trimmed [OF assms(1)] by simp
qed

lemma sub_brackets_shorter:
  assumes "trimmed r" and "bracket_edged r"
  shows "length (sub_brackets r) < length r"
proof -
  from assms(2) have ne: "r \<noteq> []" by (simp add: bracket_edged_def)
  let ?t = "dropWhile is_bracket r"
  have eq: "length (sub_brackets r) = length (dropWhile is_bracket (rev ?t))"
    using sub_brackets_trimmed [OF assms(1)] by simp
  have le1: "length (dropWhile is_bracket (rev ?t)) \<le> length ?t"
    using length_dropWhile_le [of is_bracket "rev ?t"] by simp
  show ?thesis
  proof (cases "is_bracket (hd r)")
    case True
    with ne have "length ?t < length r"
      using length_dropWhile_le [of is_bracket "tl r"] by (cases r) auto
    with eq le1 show ?thesis by linarith
  next
    case False
    with assms(2) have l: "is_bracket (last r)" by (simp add: bracket_edged_def)
    have t: "?t = r" using ne False by (rule dropWhile_hd_id)
    obtain ys y where r: "r = ys @ [y]" using ne by (cases r rule: rev_cases) auto
    with l have "is_bracket y" by simp
    then have "length (dropWhile is_bracket (rev r)) \<le> length ys"
      using length_dropWhile_le [of is_bracket "rev ys"] by (simp add: r)
    then show ?thesis using eq t r by simp
  qed
qed

lemma clean_str_idem_iff:
  "clean_str (clean_str s) = clean_str s \<longleftrightarrow> \<not> bracket_edged (clean_str s)"
proof (cases "bracket_edged (clean_str s)")
  case True
  have "length (clean_str (clean_str s)) \<le> length (sub_brackets (clean_str s))"
    unfolding clean_str_again by (rule length_clean_str_aux)
  also have "\<dots> < length (clean_str s)"
    using trimmed_clean_str True by (rule sub_brackets_shorter)
  finally show ?thesis using True by auto
next
  case False
  have "sub_brackets (clean_str s) = clean_str s"
    using trimmed_clean_str False by (rule sub_brackets_id)
  moreover have "remove_plus (clean_str s) = clean_str s"
    by (rule remove_plus_id) (rule clean_str_no_plus)
  moreover have "strip (clean_str s) = clean_str s"
    by (rule trimmed_strip_id) (rule trimmed_clean_str)
  ultimately have "clean_str (clean_str s) = clean_str s"
    unfolding clean_str_again by (simp add: collapse_ws_clean_str)
  with False show ?thesis by simp
qed

subsection \<open>Claims about the text cleaner\<close>

text \<open>
  C3. The cleaner is not idempotent on every string: a second application changes the
  cleaned string exactly when that string still has one of the characters \<open>[\<close>,
  \<open>]\<close>, \<open>"\<close> at its start or at its end. Such a character is left there when
  the removal of \<open>+\<close> or the second trim uncovers it, after the brackets were
  stripped.
\<close>

theorem clean_text_idempotent_iff:
  "clean_text repr (Text (clean_text repr (Text s))) = clean_text repr (Text s)
     \<longleftrightarrow> \<not> bracket_edged (clean_text repr (Text s))"
  by (simp add: clean_text_def clean_str_idem_iff)

theorem clean_text_idempotent_witness:
  "\<not> bracket_edged (clean_cell (Some '' [Roof+ Repair] ''))
   \<and> clean_cell (Some (clean_cell (Some '' [Roof+ Repair] ''))) = clean_cell (Some '' [Roof+ Repair] '')"
proof -
  have e: "clean_cell (Some '' [Roof+ Repair] '') = ''roof repair''"
    by code_simp
  have n: "\<not> bracket_edged ''roof repair''"
    by (simp add: bracket_edged_def is_bracket_def)
  show ?thesis
    using n clean_text_idempotent_iff [of "\<lambda>u :: unit. []" "'' [Roof+ Repair] ''"]
    unfolding e [unfolded clean_cell_def option.case] clean_cell_def option.case
    by simp
qed

theorem clean_text_idempotent_counterexample:
  "clean_cell (Some (clean_cell (Some ''+[a''))) \<noteq> clean_cell (Some ''+[a'')"
  by code_simp



section \<open>Properties of the loader and the normalizer\<close>

lemma load_loop_eq:
  "load_loop fs (all_dfs, errors) =
     (all_dfs @ map (\<lambda>f. projr (read_csv f)) (filter (\<lambda>f. \<not> isl (read_csv f)) fs),
      errors @ map (\<lambda>f. ''Error reading '' @ file_name f @ '': '' @ projl (read_csv f))
                 (filter (\<lambda>f. isl (read_csv f)) fs))"
proof (induction fs arbitrary: all_dfs errors)
  case Nil
  then show ?case by simp
next
  case (Cons f fs)
  then show ?case by (cases "read_csv f") simp_all
qed

lemma load_eq:
  "load fs =
     (map (\<lambda>f. ''Error reading '' @ file_name f @ '': '' @ projl (read_csv f))
        (filter (\<lambda>f. isl (read_csv f)) fs),
      if filter (\<lambda>f. \<not> isl (read_csv f)) fs = [] then Inl EmptyInputError
      else Inr (concat (map (\<lambda>f. projr (read_csv f)) (filter (\<lambda>f. \<not> isl (read_csv f)) fs))))"
  by (simp add: load_def load_loop_eq)

lemma read_cell_not_empty: "read_cell t \<noteq> Some []"
  by (simp add: read_cell_def na_values_def)

lemma read_csv_search_term:
  "read_csv f = Inr df \<Longrightarrow> r \<in> set df \<Longrightarrow> search_term r \<noteq> Some []"
  by (auto simp: read_csv_def read_row_def read_cell_not_empty split: parsed.splits)

lemma load_search_term:
  assumes "snd (load fs) = Inr df" and "r \<in> set df"
  shows "search_term r \<noteq> Some []"
proof -
  from assms obtain f where "f \<in> set fs" "\<not> isl (read_csv f)" "r \<in> set (projr (read_csv f))"
    by (auto simp: load_eq split: if_splits)
  then show ?thesis using read_csv_search_term [of f "projr (read_csv f)" r]
    by (cases "read_csv f") auto
qed

lemma normalize_eq:
  "normalize df = map coerce_row (filter (\<lambda>r. search_term r \<noteq> None) df)"
  by (simp add: normalize_def filter_map comp_def coerce_row_def)

text \<open>
  C6. A file on which \<^verbatim>\<open>pd.read_csv\<close> raises adds one message to the errors shown
  and nothing to the merge; the other files are merged in their order. The load fails,
  with the error of the empty concatenation, exactly when no file parses. Of three
  files with one unparseable, the other two are merged and one error is reported.
\<close>

theorem load_partial_failure:
  "fst (load fs) = map (\<lambda>f. ''Error reading '' @ file_name f @ '': '' @ projl (read_csv f))
                     (filter (\<lambda>f. isl (read_csv f)) fs)
   \<and> (snd (load fs) = Inl EmptyInputError \<longleftrightarrow> (\<forall>f\<in>set fs. isl (read_csv f)))
   \<and> ((\<exists>f\<in>set fs. \<not> isl (read_csv f)) \<longrightarrow>
        snd (load fs) = Inr (concat (map (\<lambda>f. projr (read_csv f))
                                      (filter (\<lambda>f. \<not> isl (read_csv f)) fs))))"
  by (auto simp: load_eq filter_empty_conv)

theorem load_partial_failure_witness:
  "(\<exists>f\<in>set [\<lparr>file_name = ''a.csv'', file_content = Table
        [\<lparr>csv_search_term = ''roof repair'', csv_keyword = ''roof repair'', csv_campaign = ''c1'',
          csv_ad_group = ''g1'', csv_match_type = ''Exact match'', csv_impressions = Some 10,
          csv_clicks = Some 2, csv_cost = Some 3\<rparr>]\<rparr>,
      \<lparr>file_name = ''b.csv'', file_content = Unparseable ''No columns to parse from file''\<rparr>,
      \<lparr>file_name = ''c.csv'', file_content = Table
        [\<lparr>csv_search_term = ''free quote'', csv_keyword = [], csv_campaign = ''c2'',
          csv_ad_group = ''g2'', csv_match_type = ''Broad match'', csv_impressions = None,
          csv_clicks = Some 1, csv_cost = Some 0\<rparr>]\<rparr>]. \<not> isl (read_csv f))
   \<and> load [\<lparr>file_name = ''a.csv'', file_content = Table
        [\<lparr>csv_search_term = ''roof repair'', csv_keyword = ''roof repair'', csv_campaign = ''c1'',
          csv_ad_group = ''g1'', csv_match_type = ''Exact match'', csv_impressions = Some 10,
          csv_clicks = Some 2, csv_cost = Some 3\<rparr>]\<rparr>,
      \<lparr>file_name = ''b.csv'', file_content = Unparseable ''No columns to parse from file''\<rparr>,
      \<lparr>file_name = ''c.csv'', file_content = Table
        [\<lparr>csv_search_term = ''free quote'', csv_keyword = [], csv_campaign = ''c2'',
          csv_ad_group = ''g2'', csv_match_type = ''Broad match'', csv_impressions = None,
          csv_clicks = Some 1, csv_cost = Some 0\<rparr>]\<rparr>]
     = ([''Error reading b.csv: No columns to parse from file''],
        Inr [\<lparr>search_term = Some ''roof repair'', keyword = Some ''roof repair'',
              campaign = Some ''c1'', ad_group = Some ''g1'', match_type = Some ''Exact match'',
              impressions = Some 10, clicks = Some 2, cost = Some 3, account = ''a.csv''\<rparr>,
             \<lparr>search_term = Some ''free quote'', keyword = None,
              campaign = Some ''c2'', ad_group = Some ''g2'', match_type = Some ''Broad match'',
              impressions = None, clicks = Some 1, cost = Some 0, account = ''c.csv''\<rparr>])"
  using load_partial_failure [of "[\<lparr>file_name = ''a.csv'', file_content = Table
        [\<lparr>csv_search_term = ''roof repair'', csv_keyword = ''roof repair'', csv_campaign = ''c1'',
          csv_ad_group = ''g1'', csv_match_type = ''Exact match'', csv_impressions = Some 10,
          csv_clicks = Some 2, csv_cost = Some 3\<rparr>]\<rparr>,
      \<lparr>file_name = ''b.csv'', file_content = Unparseable ''No columns to parse from file''\<rparr>,
      \<lparr>file_name = ''c.csv'', file_content = Table
        [\<lparr>csv_search_term = ''free quote'', csv_keyword = [], csv_campaign = ''c2'',
          csv_ad_group = ''g2'', csv_match_type = ''Broad match'', csv_impressions = None,
          csv_clicks = Some 1, csv_cost = Some 0\<rparr>]\<rparr>]"]
  by (simp add: read_csv_def read_row_def read_cell_def na_values_def prod_eq_iff)


text \<open>
  C4. On a merged table that the loader returns, the normalizer keeps exactly the rows
  whose search term is neither missing nor the empty string, with their metric columns
  coerced: \<^verbatim>\<open>dropna\<close> drops the rows with a missing search term, and an empty
  field is already a missing value when the file is read.
\<close>

theorem normalize_keeps_rows_with_search_term:
  assumes "snd (load fs) = Inr df"
  shows "normalize df =
     map coerce_row (filter (\<lambda>r. search_term r \<noteq> None \<and> search_term r \<noteq> Some []) df)"
proof -
  have "filter (\<lambda>r. search_term r \<noteq> None) df
          = filter (\<lambda>r. search_term r \<noteq> None \<and> search_term r \<noteq> Some []) df"
    by (rule filter_cong) (use load_search_term [OF assms] in auto)
  then show ?thesis by (simp add: normalize_eq)
qed

theorem normalize_keeps_rows_with_search_term_witness:
  "snd (load [\<lparr>file_name = ''a.csv'', file_content = Table
        [\<lparr>csv_search_term = ''roof repair'', csv_keyword = ''roof repair'', csv_campaign = ''c1'',
          csv_ad_group = ''g1'', csv_match_type = ''Exact match'', csv_impressions = Some 10,
          csv_clicks = Some 2, csv_cost = Some 3\<rparr>,
         \<lparr>csv_search_term = [], csv_keyword = ''roofing'', csv_campaign = ''c1'',
          csv_ad_group = ''g1'', csv_match_type = ''Broad match'', csv_impressions = Some 4,
          csv_clicks = None, csv_cost = Some 0\<rparr>]\<rparr>])
     = Inr [\<lparr>search_term = Some ''roof repair'', keyword = Some ''roof repair'',
              campaign = Some ''c1'', ad_group = Some ''g1'', match_type = Some ''Exact match'',
              impressions = Some 10, clicks = Some 2, cost = Some 3, account = ''a.csv''\<rparr>,
            \<lparr>search_term = None, keyword = Some ''roofing'',
              campaign = Some ''c1'', ad_group = Some ''g1'', match_type = Some ''Broad match'',
              impressions = Some 4, clicks = None, cost = Some 0, account = ''a.csv''\<rparr>]
   \<and> normalize [\<lparr>search_term = Some ''roof repair'', keyword = Some ''roof repair'',
              campaign = Some ''c1'', ad_group = Some ''g1'', match_type = Some ''Exact match'',
              impressions = Some 10, clicks = Some 2, cost = Some 3, account = ''a.csv''\<rparr>,
            \<lparr>search_term = None, keyword = Some ''roofing'',
              campaign = Some ''c1'', ad_group = Some ''g1'', match_type = Some ''Broad match'',
              impressions = Some 4, clicks = None, cost = Some 0, account = ''a.csv''\<rparr>]
     = [\<lparr>search_term = Some ''roof repair'', keyword = Some ''roof repair'',
              campaign = Some ''c1'', ad_group = Some ''g1'', match_type = Some ''Exact match'',
              impressions = 10, clicks = 2, cost = 3, account = ''a.csv''\<rparr>]"
proof -
  have h: "snd (load [\<lparr>file_name = ''a.csv'', file_content = Table
        [\<lparr>csv_search_term = ''roof repair'', csv_keyword = ''roof repair'', csv_campaign = ''c1'',
          csv_ad_group = ''g1'', csv_match_type = ''Exact match'', csv_impressions = Some 10,
          csv_clicks = Some 2, csv_cost = Some 3\<rparr>,
         \<lparr>csv_search_term = [], csv_keyword = ''roofing'', csv_campaign = ''c1'',
          csv_ad_group = ''g1'', csv_match_type = ''Broad match'', csv_impressions = Some 4,
          csv_clicks = None, csv_cost = Some 0\<rparr>]\<rparr>])
     = Inr [\<lparr>search_term = Some ''roof repair'', keyword = Some ''roof repair'',
              campaign = Some ''c1'', ad_group = Some ''g1'', match_type = Some ''Exact match'',
              impressions = Some 10, clicks = Some 2, cost = Some 3, account = ''a.csv''\<rparr>,
            \<lparr>search_term = None, keyword = Some ''roofing'',
              campaign = Some ''c1'', ad_group = Some ''g1'', match_type = Some ''Broad match'',
              impressions = Some 4, clicks = None, cost = Some 0, account = ''a.csv''\<rparr>]"
    by (simp add: load_def read_csv_def read_row_def read_cell_def na_values_def)
  show ?thesis
    using h normalize_keeps_rows_with_search_term [OF h]
    by (simp add: coerce_row_def to_numeric_def)
qed


section \<open>Properties of the keyword summary\<close>

subsection \<open>Sorting keeps sums, elements and distinctness\<close>



lemma distinct_map_insort_key:
  "distinct (map h (insort_key g x xs)) \<longleftrightarrow> h x \<notin> h ` set xs \<and> distinct (map h xs)"
  by (induction xs) (auto simp: set_insort_key)

lemma distinct_map_sort_key:
  "distinct (map h (sort_key g xs)) \<longleftrightarrow> distinct (map h xs)"
  by (induction xs) (auto simp: distinct_map_insort_key)

subsection \<open>Groups\<close>

lemma set_map_filter: "set (List.map_filter f xs) = {y. \<exists>x\<in>set xs. f x = Some y}"
  by (induction xs) (auto split: option.splits)

lemma set_group_keys: "set (group_keys col df) = {k. \<exists>r\<in>set df. col r = Some k}"
  by (simp add: group_keys_def set_map_filter)

lemma distinct_group_keys: "distinct (group_keys col df)"
  by (simp add: group_keys_def)




subsection \<open>The keyword summary\<close>

lemma keyword_agg_simps:
  "group_keyword (keyword_agg df k) = k"
  "total_search_terms (keyword_agg df k) = nunique (map search_term (group_rows keyword df k))"
  "total_impressions (keyword_agg df k) = sum_list (map impressions (group_rows keyword df k))"
  "total_clicks (keyword_agg df k) = sum_list (map clicks (group_rows keyword df k))"
  "total_cost (keyword_agg df k) = sum_list (map cost (group_rows keyword df k))"
  by (simp_all add: keyword_agg_def Let_def)

lemma add_ratios_simps:
  "group_keyword (add_ratios g) = group_keyword g"
  "total_search_terms (add_ratios g) = total_search_terms g"
  "total_impressions (add_ratios g) = total_impressions g"
  "total_clicks (add_ratios g) = total_clicks g"
  "total_cost (add_ratios g) = total_cost g"
  "CTR (add_ratios g) = fillna0 (fdiv (total_clicks g) (total_impressions g))"
  "CPC (add_ratios g) = replace_inf0 (fdiv (total_cost g) (total_clicks g))"
  by (simp_all add: add_ratios_def)

lemma set_summary:
  "set (summary df) = (\<lambda>k. add_ratios (keyword_agg df k)) ` {k. \<exists>r\<in>set df. keyword r = Some k}"
  by (simp add: summary_def set_group_keys image_image)

lemma summary_keywords:
  "map group_keyword (summary df)
   = map group_keyword (sort_key (\<lambda>g. - int (total_search_terms g))
       (map (keyword_agg df) (group_keys keyword df)))"
  by (simp add: summary_def add_ratios_simps comp_def)

lemma distinct_summary_keywords: "distinct (map group_keyword (summary df))"
proof -
  have "map group_keyword (map (keyword_agg df) (group_keys keyword df)) = group_keys keyword df"
    by (simp add: comp_def keyword_agg_simps)
  then show ?thesis
    by (simp only: summary_keywords distinct_map_sort_key distinct_group_keys)
qed

lemma nunique_card: "nunique vs = card {s. Some s \<in> set vs}"
proof -
  have "set (List.map_filter id vs) = {s. Some s \<in> set vs}"
    by (auto simp: set_map_filter)
  then show ?thesis by (simp add: nunique_def length_remdups_card_conv)
qed



text \<open>
  C2. Rows whose keyword is missing are in no group of the keyword summary. The summary
  has exactly one row for each keyword that is present, and the row of a keyword
  carries the number of distinct search terms and the sums of impressions, clicks and
  cost of the rows with that keyword.
\<close>

theorem summary_groups_present_keywords:
  "distinct (map group_keyword (summary df))
   \<and> set (map group_keyword (summary df)) = {k. \<exists>r\<in>set df. keyword r = Some k}
   \<and> (\<forall>g\<in>set (summary df).
        total_search_terms g
          = card {s. \<exists>r\<in>set df. keyword r = Some (group_keyword g) \<and> search_term r = Some s}
        \<and> total_impressions g
          = sum_list (map impressions (filter (\<lambda>r. keyword r = Some (group_keyword g)) df))
        \<and> total_clicks g
          = sum_list (map clicks (filter (\<lambda>r. keyword r = Some (group_keyword g)) df))
        \<and> total_cost g
          = sum_list (map cost (filter (\<lambda>r. keyword r = Some (group_keyword g)) df)))"
proof (intro conjI ballI)
  show "distinct (map group_keyword (summary df))" by (rule distinct_summary_keywords)
  show "set (map group_keyword (summary df)) = {k. \<exists>r\<in>set df. keyword r = Some k}"
    by (simp add: set_summary image_image add_ratios_simps keyword_agg_simps)
next
  fix g assume "g \<in> set (summary df)"
  then obtain k where g: "g = add_ratios (keyword_agg df k)"
    by (auto simp: set_summary)
  have "{s. Some s \<in> set (map search_term (group_rows keyword df k))}
        = {s. \<exists>r\<in>set df. keyword r = Some k \<and> search_term r = Some s}"
    by (auto simp: group_rows_def image_iff)
  then show "total_search_terms g
          = card {s. \<exists>r\<in>set df. keyword r = Some (group_keyword g) \<and> search_term r = Some s}"
    by (simp add: g add_ratios_simps keyword_agg_simps nunique_card)
  show "total_impressions g
          = sum_list (map impressions (filter (\<lambda>r. keyword r = Some (group_keyword g)) df))"
    by (simp add: g add_ratios_simps keyword_agg_simps group_rows_def)
  show "total_clicks g
          = sum_list (map clicks (filter (\<lambda>r. keyword r = Some (group_keyword g)) df))"
    by (simp add: g add_ratios_simps keyword_agg_simps group_rows_def)
  show "total_cost g
          = sum_list (map cost (filter (\<lambda>r. keyword r = Some (group_keyword g)) df))"
    by (simp add: g add_ratios_simps keyword_agg_simps group_rows_def)
qed

theorem summary_groups_present_keywords_witness:
  "summary
     [\<lparr>search_term = Some ''roof repair near me'', keyword = Some ''roofing'', campaign = Some ''c1'',
        ad_group = Some ''g1'', match_type = Some ''Broad match'',
        impressions = 10, clicks = 2, cost = 3, account = ''a.csv''\<rparr>,
      \<lparr>search_term = Some ''free quote'', keyword = None, campaign = Some ''c1'',
        ad_group = Some ''g1'', match_type = Some ''Broad match'',
        impressions = 7, clicks = 1, cost = 1, account = ''a.csv''\<rparr>,
      \<lparr>search_term = Some ''roof repair'', keyword = Some ''roof repair'', campaign = Some ''c1'',
        ad_group = Some ''g1'', match_type = Some ''Exact match'',
        impressions = 5, clicks = 1, cost = 2, account = ''a.csv''\<rparr>,
      \<lparr>search_term = Some ''roofers'', keyword = Some ''roofing'', campaign = Some ''c1'',
        ad_group = Some ''g1'', match_type = Some ''Broad match'',
        impressions = 4, clicks = 3, cost = 6, account = ''a.csv''\<rparr>]
   = [\<lparr>group_keyword = ''roofing'', total_search_terms = 2, total_impressions = 14,
        total_clicks = 5, total_cost = 9, CTR = Finite (5 / 14), CPC = Finite (9 / 5)\<rparr>,
      \<lparr>group_keyword = ''roof repair'', total_search_terms = 1, total_impressions = 5,
        total_clicks = 1, total_cost = 2, CTR = Finite (1 / 5), CPC = Finite 2\<rparr>]
   \<and> set (map group_keyword (summary
     [\<lparr>search_term = Some ''roof repair near me'', keyword = Some ''roofing'', campaign = Some ''c1'',
        ad_group = Some ''g1'', match_type = Some ''Broad match'',
        impressions = 10, clicks = 2, cost = 3, account = ''a.csv''\<rparr>,
      \<lparr>search_term = Some ''free quote'', keyword = None, campaign = Some ''c1'',
        ad_group = Some ''g1'', match_type = Some ''Broad match'',
        impressions = 7, clicks = 1, cost = 1, account = ''a.csv''\<rparr>,
      \<lparr>search_term = Some ''roof repair'', keyword = Some ''roof repair'', campaign = Some ''c1'',
        ad_group = Some ''g1'', match_type = Some ''Exact match'',
        impressions = 5, clicks = 1, cost = 2, account = ''a.csv''\<rparr>,
      \<lparr>search_term = Some ''roofers'', keyword = Some ''roofing'', campaign = Some ''c1'',
        ad_group = Some ''g1'', match_type = Some ''Broad match'',
        impressions = 4, clicks = 3, cost = 6, account = ''a.csv''\<rparr>]))
     = {''roofing'', ''roof repair''}"
proof -
  have e: "summary
     [\<lparr>search_term = Some ''roof repair near me'', keyword = Some ''roofing'', campaign = Some ''c1'',
        ad_group = Some ''g1'', match_type = Some ''Broad match'',
        impressions = 10, clicks = 2, cost = 3, account = ''a.csv''\<rparr>,
      \<lparr>search_term = Some ''free quote'', keyword = None, campaign = Some ''c1'',
        ad_group = Some ''g1'', match_type = Some ''Broad match'',
        impressions = 7, clicks = 1, cost = 1, account = ''a.csv''\<rparr>,
      \<lparr>search_term = Some ''roof repair'', keyword = Some ''roof repair'', campaign = Some ''c1'',
        ad_group = Some ''g1'', match_type = Some ''Exact match'',
        impressions = 5, clicks = 1, cost = 2, account = ''a.csv''\<rparr>,
      \<lparr>search_term = Some ''roofers'', keyword = Some ''roofing'', campaign = Some ''c1'',
        ad_group = Some ''g1'', match_type = Some ''Broad match'',
        impressions = 4, clicks = 3, cost = 6, account = ''a.csv''\<rparr>]
   = [\<lparr>group_keyword = ''roofing'', total_search_terms = 2, total_impressions = 14,
        total_clicks = 5, total_cost = 9, CTR = Finite (5 / 14), CPC = Finite (9 / 5)\<rparr>,
      \<lparr>group_keyword = ''roof repair'', total_search_terms = 1, total_impressions = 5,
        total_clicks = 1, total_cost = 2, CTR = Finite (1 / 5), CPC = Finite 2\<rparr>]"
    by (simp add: summary_def group_keys_def keyword_agg_def group_rows_def
      add_ratios_def fdiv_def nunique_def)
  have k: "{k. \<exists>r\<in>set
     [\<lparr>search_term = Some ''roof repair near me'', keyword = Some ''roofing'', campaign = Some ''c1'',
        ad_group = Some ''g1'', match_type = Some ''Broad match'',
        impressions = 10, clicks = 2, cost = 3, account = ''a.csv''\<rparr>,
      \<lparr>search_term = Some ''free quote'', keyword = None, campaign = Some ''c1'',
        ad_group = Some ''g1'', match_type = Some ''Broad match'',
        impressions = 7, clicks = 1, cost = 1, account = ''a.csv''\<rparr>,
      \<lparr>search_term = Some ''roof repair'', keyword = Some ''roof repair'', campaign = Some ''c1'',
        ad_group = Some ''g1'', match_type = Some ''Exact match'',
        impressions = 5, clicks = 1, cost = 2, account = ''a.csv''\<rparr>,
      \<lparr>search_term = Some ''roofers'', keyword = Some ''roofing'', campaign = Some ''c1'',
        ad_group = Some ''g1'', match_type = Some ''Broad match'',
        impressions = 4, clicks = 3, cost = 6, account = ''a.csv''\<rparr>]. keyword r = Some k} = {''roofing'', ''roof repair''}"
    by auto
  show ?thesis
    using e summary_groups_present_keywords [of
     "[\<lparr>search_term = Some ''roof repair near me'', keyword = Some ''roofing'', campaign = Some ''c1'',
        ad_group = Some ''g1'', match_type = Some ''Broad match'',
        impressions = 10, clicks = 2, cost = 3, account = ''a.csv''\<rparr>,
      \<lparr>search_term = Some ''free quote'', keyword = None, campaign = Some ''c1'',
        ad_group = Some ''g1'', match_type = Some ''Broad match'',
        impressions = 7, clicks = 1, cost = 1, account = ''a.csv''\<rparr>,
      \<lparr>search_term = Some ''roof repair'', keyword = Some ''roof repair'', campaign = Some ''c1'',
        ad_group = Some ''g1'', match_type = Some ''Exact match'',
        impressions = 5, clicks = 1, cost = 2, account = ''a.csv''\<rparr>,
      \<lparr>search_term = Some ''roofers'', keyword = Some ''roofing'', campaign = Some ''c1'',
        ad_group = Some ''g1'', match_type = Some ''Broad match'',
        impressions = 4, clicks = 3, cost = 6, account = ''a.csv''\<rparr>]"]
    unfolding k by simp
qed

theorem summary_missing_keyword_counterexample:
  "summary
     [\<lparr>search_term = Some ''free quote'', keyword = None, campaign = Some ''c1'',
        ad_group = Some ''g1'', match_type = Some ''Broad match'',
        impressions = 7, clicks = 1, cost = 1, account = ''a.csv''\<rparr>] = []"
  by (simp add: summary_def group_keys_def keyword_agg_def group_rows_def
      add_ratios_def fdiv_def nunique_def)

text \<open>
  C1. The two ratios are not always finite. Line 111 replaces NaN by 0 and leaves an
  infinity in place; line 112 replaces the positive infinity by 0 and leaves NaN in
  place. A group with clicks and no impressions has an infinite CTR, and a group with
  neither clicks nor cost has a CPC that is NaN.
\<close>

theorem summary_ratio_not_finite:
  "map CTR (summary
     [\<lparr>search_term = Some ''roof repair'', keyword = Some ''roof repair'', campaign = Some ''c1'',
        ad_group = Some ''g1'', match_type = Some ''Exact match'',
        impressions = 0, clicks = 1, cost = 0, account = ''a.csv''\<rparr>]) = [PosInf]
   \<and> map CPC (summary
     [\<lparr>search_term = Some ''roof repair'', keyword = Some ''roof repair'', campaign = Some ''c1'',
        ad_group = Some ''g1'', match_type = Some ''Exact match'',
        impressions = 0, clicks = 0, cost = 0, account = ''a.csv''\<rparr>]) = [NaN]"
  by (simp add: summary_def group_keys_def keyword_agg_def group_rows_def
      add_ratios_def fdiv_def nunique_def)


section \<open>Properties of the gap detector\<close>

lemma uncovered_terms_eq:
  "uncovered_terms df
   = (\<lambda>r. clean_cell (search_term r)) ` set df - ((\<lambda>r. clean_cell (keyword r)) ` set df - {[]})"
  by (simp add: uncovered_terms_def all_search_terms_def all_keywords_def)

lemma set_uncovered_df:
  "set (uncovered_df df) = {r \<in> set df. clean_cell (search_term r) \<in> uncovered_terms df}"
  by (auto simp: uncovered_df_def)

lemma set_detailed_list: "set (detailed_list udf) = detail ` set udf"
  by (simp add: detailed_list_def)

lemma set_uncovered_summary:
  "set (uncovered_summary udf) = term_agg udf ` {k. \<exists>r\<in>set udf. search_term r = Some k}"
  by (simp add: uncovered_summary_def set_group_keys)

lemma gap_detector_cases:
  "gap_detector df =
     (if uncovered_df df = [] then FullyCovered
      else Uncovered (uncovered_summary (uncovered_df df)) (detailed_list (uncovered_df df)))"
  by (simp add: gap_detector_def Let_def)

lemma detail_simps:
  "d_search_term (detail r) = search_term r"
  "d_keyword (detail r) = keyword r"
  by (simp_all add: detail_def)



lemma uncovered_df_row_differs:
  assumes "r \<in> set (uncovered_df df)" and "clean_cell (keyword r) \<noteq> []"
  shows "clean_cell (search_term r) \<noteq> clean_cell (keyword r)"
proof
  assume e: "clean_cell (search_term r) = clean_cell (keyword r)"
  from assms(1) have r: "r \<in> set df" and u: "clean_cell (search_term r) \<in> uncovered_terms df"
    by (simp_all add: set_uncovered_df)
  from r assms(2) have "clean_cell (keyword r) \<in> (\<lambda>r. clean_cell (keyword r)) ` set df - {[]}"
    by auto
  with u e show False by (simp add: uncovered_terms_eq)
qed

text \<open>
  C5. The uncovered set is the set of cleaned search terms minus the set of cleaned
  keywords without the empty string. For the two rows with search terms
  \<open>free quote\<close>, \<open>roof repair\<close> and keywords \<open>roofing quote\<close>,
  \<open>roof repair\<close> it is the set of \<open>free quote\<close> alone. Every row whose cleaned
  search term is in the uncovered set is in the full detailed list.
\<close>

theorem uncovered_terms_gap_set:
  "uncovered_terms df
     = (\<lambda>r. clean_cell (search_term r)) ` set df - ((\<lambda>r. clean_cell (keyword r)) ` set df - {[]})
   \<and> (search_term ra = Some ''free quote'' \<and> keyword ra = Some ''roofing quote''
        \<and> search_term rb = Some ''roof repair'' \<and> keyword rb = Some ''roof repair''
        \<longrightarrow> uncovered_terms [ra, rb] = {''free quote''})
   \<and> (\<forall>r\<in>set df. clean_cell (search_term r) \<in> uncovered_terms df \<longrightarrow>
         (\<exists>us ds. gap_detector df = Uncovered us ds \<and> detail r \<in> set ds))"
proof (intro conjI impI ballI)
  show "uncovered_terms df
     = (\<lambda>r. clean_cell (search_term r)) ` set df - ((\<lambda>r. clean_cell (keyword r)) ` set df - {[]})"
    by (rule uncovered_terms_eq)
next
  assume h: "search_term ra = Some ''free quote'' \<and> keyword ra = Some ''roofing quote''
        \<and> search_term rb = Some ''roof repair'' \<and> keyword rb = Some ''roof repair''"
  have a: "clean_cell (Some ''free quote'') = ''free quote''" by code_simp
  have b: "clean_cell (Some ''roofing quote'') = ''roofing quote''" by code_simp
  have c: "clean_cell (Some ''roof repair'') = ''roof repair''" by code_simp
  show "uncovered_terms [ra, rb] = {''free quote''}"
    using h by (auto simp: uncovered_terms_eq a b c)
next
  fix r assume r: "r \<in> set df" and u: "clean_cell (search_term r) \<in> uncovered_terms df"
  then have m: "r \<in> set (uncovered_df df)" by (simp add: set_uncovered_df)
  then have "uncovered_df df \<noteq> []" by auto
  then have "gap_detector df
      = Uncovered (uncovered_summary (uncovered_df df)) (detailed_list (uncovered_df df))"
    by (simp add: gap_detector_cases)
  moreover have "detail r \<in> set (detailed_list (uncovered_df df))"
    using m by (simp add: set_detailed_list)
  ultimately show "\<exists>us ds. gap_detector df = Uncovered us ds \<and> detail r \<in> set ds"
    by blast
qed

theorem uncovered_terms_gap_set_witness:
  "uncovered_terms
     [\<lparr>search_term = Some ''free quote'', keyword = Some ''roofing quote'', campaign = Some ''c1'',
        ad_group = Some ''g1'', match_type = Some ''Broad match'',
        impressions = 12, clicks = 3, cost = 4, account = ''a.csv''\<rparr>,
      \<lparr>search_term = Some ''roof repair'', keyword = Some ''roof repair'', campaign = Some ''c1'',
        ad_group = Some ''g1'', match_type = Some ''Exact match'',
        impressions = 20, clicks = 5, cost = 6, account = ''a.csv''\<rparr>] = {''free quote''}
   \<and> gap_detector
     [\<lparr>search_term = Some ''free quote'', keyword = Some ''roofing quote'', campaign = Some ''c1'',
        ad_group = Some ''g1'', match_type = Some ''Broad match'',
        impressions = 12, clicks = 3, cost = 4, account = ''a.csv''\<rparr>,
      \<lparr>search_term = Some ''roof repair'', keyword = Some ''roof repair'', campaign = Some ''c1'',
        ad_group = Some ''g1'', match_type = Some ''Exact match'',
        impressions = 20, clicks = 5, cost = 6, account = ''a.csv''\<rparr>]
     = Uncovered
       [\<lparr>u_search_term = ''free quote'', u_total_impressions = 12, u_total_clicks = 3,
        u_total_cost = 4\<rparr>]
       [\<lparr>d_search_term = Some ''free quote'', d_match_type = Some ''Broad match'', d_campaign = Some ''c1'',
        d_ad_group = Some ''g1'', d_impressions = 12, d_clicks = 3, d_cost = 4,
        d_keyword = Some ''roofing quote''\<rparr>]"
proof -
  have a: "clean_cell (Some ''free quote'') = ''free quote''" by code_simp
  have b: "clean_cell (Some ''roofing quote'') = ''roofing quote''" by code_simp
  have c: "clean_cell (Some ''roof repair'') = ''roof repair''" by code_simp
  have e: "gap_detector
     [\<lparr>search_term = Some ''free quote'', keyword = Some ''roofing quote'', campaign = Some ''c1'',
        ad_group = Some ''g1'', match_type = Some ''Broad match'',
        impressions = 12, clicks = 3, cost = 4, account = ''a.csv''\<rparr>,
      \<lparr>search_term = Some ''roof repair'', keyword = Some ''roof repair'', campaign = Some ''c1'',
        ad_group = Some ''g1'', match_type = Some ''Exact match'',
        impressions = 20, clicks = 5, cost = 6, account = ''a.csv''\<rparr>]
     = Uncovered
       [\<lparr>u_search_term = ''free quote'', u_total_impressions = 12, u_total_clicks = 3,
        u_total_cost = 4\<rparr>]
       [\<lparr>d_search_term = Some ''free quote'', d_match_type = Some ''Broad match'', d_campaign = Some ''c1'',
        d_ad_group = Some ''g1'', d_impressions = 12, d_clicks = 3, d_cost = 4,
        d_keyword = Some ''roofing quote''\<rparr>]"
    by (simp add: gap_detector_def uncovered_df_def uncovered_terms_def all_search_terms_def
        all_keywords_def uncovered_summary_def term_agg_def group_keys_def group_rows_def
        detailed_list_def detail_def a b c)
  show ?thesis
    using e uncovered_terms_gap_set [of _
     "\<lparr>search_term = Some ''free quote'', keyword = Some ''roofing quote'', campaign = Some ''c1'',
        ad_group = Some ''g1'', match_type = Some ''Broad match'',
        impressions = 12, clicks = 3, cost = 4, account = ''a.csv''\<rparr>"
     "\<lparr>search_term = Some ''roof repair'', keyword = Some ''roof repair'', campaign = Some ''c1'',
        ad_group = Some ''g1'', match_type = Some ''Exact match'',
        impressions = 20, clicks = 5, cost = 6, account = ''a.csv''\<rparr>", THEN conjunct2, THEN conjunct1]
      uncovered_terms_gap_set [of
     "[\<lparr>search_term = Some ''free quote'', keyword = Some ''roofing quote'', campaign = Some ''c1'',
        ad_group = Some ''g1'', match_type = Some ''Broad match'',
        impressions = 12, clicks = 3, cost = 4, account = ''a.csv''\<rparr>,
      \<lparr>search_term = Some ''roof repair'', keyword = Some ''roof repair'', campaign = Some ''c1'',
        ad_group = Some ''g1'', match_type = Some ''Exact match'',
        impressions = 20, clicks = 5, cost = 6, account = ''a.csv''\<rparr>]", THEN conjunct2, THEN conjunct2]
    by simp
qed




text \<open>
  C9. In a row of the full detailed list, the cleaned search term differs from the
  cleaned keyword of the same row whenever that keyword is not empty; every row of the
  aggregated summary has the search term of such a row. There are uncovered rows that
  carry a keyword of their own.
\<close>

theorem uncovered_rows_not_self_covered:
  "(\<forall>us ds. gap_detector df = Uncovered us ds \<longrightarrow>
      (\<forall>d\<in>set ds. clean_cell (d_keyword d) \<noteq> [] \<longrightarrow>
         clean_cell (d_search_term d) \<noteq> clean_cell (d_keyword d))
      \<and> (\<forall>u\<in>set us. \<exists>d\<in>set ds. d_search_term d = Some (u_search_term u)))
   \<and> (\<exists>df' us ds. gap_detector df' = Uncovered us ds
         \<and> (\<exists>d\<in>set ds. clean_cell (d_keyword d) \<noteq> []))"
proof (intro conjI allI impI ballI)
  fix us ds d
  assume g: "gap_detector df = Uncovered us ds" and d: "d \<in> set ds"
    and k: "clean_cell (d_keyword d) \<noteq> []"
  from g have "ds = detailed_list (uncovered_df df)"
    by (simp add: gap_detector_cases split: if_splits)
  with d obtain r where r: "r \<in> set (uncovered_df df)" and dr: "d = detail r"
    by (auto simp: set_detailed_list)
  from k have "clean_cell (keyword r) \<noteq> []" by (simp add: dr detail_simps)
  with r have "clean_cell (search_term r) \<noteq> clean_cell (keyword r)"
    by (rule uncovered_df_row_differs)
  then show "clean_cell (d_search_term d) \<noteq> clean_cell (d_keyword d)"
    by (simp add: dr detail_simps)
next
  fix us ds u
  assume g: "gap_detector df = Uncovered us ds" and u: "u \<in> set us"
  from g have us: "us = uncovered_summary (uncovered_df df)"
    and ds: "ds = detailed_list (uncovered_df df)"
    by (simp_all add: gap_detector_cases split: if_splits)
  from u obtain k r where "r \<in> set (uncovered_df df)" "search_term r = Some k" "u = term_agg (uncovered_df df) k"
    by (auto simp: us set_uncovered_summary)
  then have "detail r \<in> set ds" "d_search_term (detail r) = Some (u_search_term u)"
    by (simp_all add: ds set_detailed_list detail_simps term_agg_def Let_def)
  then show "\<exists>d\<in>set ds. d_search_term d = Some (u_search_term u)" by blast
next
  have a: "clean_cell (Some ''[roof repair]'') = ''roof repair''" by code_simp
  have b: "clean_cell (Some ''Emergency Roofer'') = ''emergency roofer''" by code_simp
  have c: "clean_cell (Some ''+roof +repair'') = ''roof repair''" by code_simp
  have d: "clean_cell (Some ''roof repair'') = ''roof repair''" by code_simp
  have e: "gap_detector
     [\<lparr>search_term = Some ''Emergency Roofer'', keyword = Some ''[roof repair]'', campaign = Some ''c1'',
        ad_group = Some ''g1'', match_type = Some ''Exact match'',
        impressions = 8, clicks = 2, cost = 5, account = ''a.csv''\<rparr>,
      \<lparr>search_term = Some ''roof repair'', keyword = Some ''+roof +repair'', campaign = Some ''c1'',
        ad_group = Some ''g1'', match_type = Some ''Broad match'',
        impressions = 9, clicks = 1, cost = 1, account = ''a.csv''\<rparr>]
     = Uncovered
       [\<lparr>u_search_term = ''Emergency Roofer'', u_total_impressions = 8, u_total_clicks = 2,
        u_total_cost = 5\<rparr>]
       [\<lparr>d_search_term = Some ''Emergency Roofer'', d_match_type = Some ''Exact match'', d_campaign = Some ''c1'',
        d_ad_group = Some ''g1'', d_impressions = 8, d_clicks = 2, d_cost = 5,
        d_keyword = Some ''[roof repair]''\<rparr>]"
    by (simp add: gap_detector_def uncovered_df_def uncovered_terms_def all_search_terms_def
        all_keywords_def uncovered_summary_def term_agg_def group_keys_def group_rows_def
        detailed_list_def detail_def a b c d)
  have "clean_cell (d_keyword
      \<lparr>d_search_term = Some ''Emergency Roofer'', d_match_type = Some ''Exact match'', d_campaign = Some ''c1'',
        d_ad_group = Some ''g1'', d_impressions = 8, d_clicks = 2, d_cost = 5,
        d_keyword = Some ''[roof repair]''\<rparr>) \<noteq> []"
    by (simp add: a)
  with e show "\<exists>df' us ds. gap_detector df' = Uncovered us ds
         \<and> (\<exists>d\<in>set ds. clean_cell (d_keyword d) \<noteq> [])"
    by (metis list.set_intros(1))
qed

theorem uncovered_rows_not_self_covered_witness:
  "gap_detector
     [\<lparr>search_term = Some ''Emergency Roofer'', keyword = Some ''[roof repair]'', campaign = Some ''c1'',
        ad_group = Some ''g1'', match_type = Some ''Exact match'',
        impressions = 8, clicks = 2, cost = 5, account = ''a.csv''\<rparr>,
      \<lparr>search_term = Some ''roof repair'', keyword = Some ''+roof +repair'', campaign = Some ''c1'',
        ad_group = Some ''g1'', match_type = Some ''Broad match'',
        impressions = 9, clicks = 1, cost = 1, account = ''a.csv''\<rparr>]
     = Uncovered
       [\<lparr>u_search_term = ''Emergency Roofer'', u_total_impressions = 8, u_total_clicks = 2,
        u_total_cost = 5\<rparr>]
       [\<lparr>d_search_term = Some ''Emergency Roofer'', d_match_type = Some ''Exact match'', d_campaign = Some ''c1'',
        d_ad_group = Some ''g1'', d_impressions = 8, d_clicks = 2, d_cost = 5,
        d_keyword = Some ''[roof repair]''\<rparr>]
   \<and> clean_cell (Some ''[roof repair]'') \<noteq> []
   \<and> clean_cell (Some ''Emergency Roofer'') \<noteq> clean_cell (Some ''[roof repair]'')"
proof -
  have a: "clean_cell (Some ''[roof repair]'') = ''roof repair''" by code_simp
  have b: "clean_cell (Some ''Emergency Roofer'') = ''emergency roofer''" by code_simp
  have c: "clean_cell (Some ''+roof +repair'') = ''roof repair''" by code_simp
  have d: "clean_cell (Some ''roof repair'') = ''roof repair''" by code_simp
  have e: "gap_detector
     [\<lparr>search_term = Some ''Emergency Roofer'', keyword = Some ''[roof repair]'', campaign = Some ''c1'',
        ad_group = Some ''g1'', match_type = Some ''Exact match'',
        impressions = 8, clicks = 2, cost = 5, account = ''a.csv''\<rparr>,
      \<lparr>search_term = Some ''roof repair'', keyword = Some ''+roof +repair'', campaign = Some ''c1'',
        ad_group = Some ''g1'', match_type = Some ''Broad match'',
        impressions = 9, clicks = 1, cost = 1, account = ''a.csv''\<rparr>]
     = Uncovered
       [\<lparr>u_search_term = ''Emergency Roofer'', u_total_impressions = 8, u_total_clicks = 2,
        u_total_cost = 5\<rparr>]
       [\<lparr>d_search_term = Some ''Emergency Roofer'', d_match_type = Some ''Exact match'', d_campaign = Some ''c1'',
        d_ad_group = Some ''g1'', d_impressions = 8, d_clicks = 2, d_cost = 5,
        d_keyword = Some ''[roof repair]''\<rparr>]"
    by (simp add: gap_detector_def uncovered_df_def uncovered_terms_def all_search_terms_def
        all_keywords_def uncovered_summary_def term_agg_def group_keys_def group_rows_def
        detailed_list_def detail_def a b c d)
  have n: "clean_cell (Some ''[roof repair]'') \<noteq> []" by (simp add: a)
  show ?thesis
    using e n uncovered_rows_not_self_covered [of
     "[\<lparr>search_term = Some ''Emergency Roofer'', keyword = Some ''[roof repair]'', campaign = Some ''c1'',
        ad_group = Some ''g1'', match_type = Some ''Exact match'',
        impressions = 8, clicks = 2, cost = 5, account = ''a.csv''\<rparr>,
      \<lparr>search_term = Some ''roof repair'', keyword = Some ''+roof +repair'', campaign = Some ''c1'',
        ad_group = Some ''g1'', match_type = Some ''Broad match'',
        impressions = 9, clicks = 1, cost = 1, account = ''a.csv''\<rparr>]"]
    by simp
qed

end
